theory Spec2Isabelle
  imports Main "HOL-Library.Word"
begin

section \<open>The mock profile service of \<^verbatim>\<open>mock-server/server.js\<close>\<close>

text \<open>
  The server keeps one object, \<^verbatim>\<open>users\<close>, and answers two routes,
  \<^verbatim>\<open>GET /api/users/:userId\<close> and \<^verbatim>\<open>PUT /api/users/:userId\<close>. Each handler is
  modelled as a function from the \<^verbatim>\<open>users\<close> object and the request to the new
  \<^verbatim>\<open>users\<close> object and the response; the response is its status and the value
  handed to \<^verbatim>\<open>res.json\<close>. The length of the artificial delays is not modelled, only
  that a handler waits once before it does anything. Strings are lists of
  \<^typ>\<open>char\<close>, read as code units below 256.
\<close>

subsection \<open>Values\<close>

text \<open>
  \<^verbatim>\<open>jsdata\<close> are the values a parsed JSON body is made of, and \<^verbatim>\<open>undefined\<close>, the
  value of a property that is not there. An object is the list of its own properties.
  \<^verbatim>\<open>JNum\<close> holds the integer-valued numbers from \<open>-2\<^sup>5\<^sup>3\<close> to
  \<open>2\<^sup>5\<^sup>3 - 1\<close>, as a signed word of 54 bits read by \<^verbatim>\<open>sint\<close>: each of these
  integers is a number that \<^verbatim>\<open>JSON.parse\<close> yields exactly, and it prints as its
  decimal digits. Numbers with a fraction or of a larger magnitude, which print with a
  dot or an exponent or with rounded digits, are not values of the model.
\<close>

datatype jsdata =
    JUndefined
  | JNull
  | JBool bool
  | JNum "54 word"
  | JStr string
  | JArr "jsdata list"
  | JObj "(string \<times> jsdata) list"

type_synonym props = "(string \<times> jsdata) list"

text \<open>
  What \<^verbatim>\<open>users[userId]\<close> can evaluate to: a data value, or something inherited from
  \<^verbatim>\<open>Object.prototype\<close>, which every object literal has as its prototype: one of its
  built-in functions, or (through the accessor \<^verbatim>\<open>__proto__\<close>) the prototype object
  itself.
\<close>

datatype jsval =
    Data jsdata
  | Builtin string
  | ObjectPrototype

text \<open>Truthiness, as \<^verbatim>\<open>!x\<close> and \<^verbatim>\<open>x || y\<close> test it.\<close>

fun truthy :: "jsdata \<Rightarrow> bool" where
  "truthy JUndefined = False"
| "truthy JNull = False"
| "truthy (JBool b) = b"
| "truthy (JNum n) = (n \<noteq> 0)"
| "truthy (JStr s) = (s \<noteq> [])"
| "truthy (JArr xs) = True"
| "truthy (JObj ps) = True"

fun truthy_val :: "jsval \<Rightarrow> bool" where
  "truthy_val (Data d) = truthy d"
| "truthy_val (Builtin f) = True"
| "truthy_val ObjectPrototype = True"

text \<open>Reading an own property of an object: \<^verbatim>\<open>undefined\<close> when it is not there.\<close>

definition get_prop :: "props \<Rightarrow> string \<Rightarrow> jsdata" where
  "get_prop ps k = (case map_of ps k of None \<Rightarrow> JUndefined | Some v \<Rightarrow> v)"

text \<open>
  Defining a property \<^verbatim>\<open>k: v\<close> of an object: an existing property keeps its place
  and takes the new value, a new one goes last.
\<close>

primrec set_prop :: "string \<Rightarrow> 'v \<Rightarrow> (string \<times> 'v) list \<Rightarrow> (string \<times> 'v) list" where
  "set_prop k v [] = [(k, v)]"
| "set_prop k v (p # ps) = (if fst p = k then (k, v) # ps else p # set_prop k v ps)"

subsection \<open>The \<^verbatim>\<open>users\<close> object\<close>

text \<open>
  \<^verbatim>\<open>own\<close> are the own properties of \<^verbatim>\<open>users\<close>, each holding a record.
  \<^verbatim>\<open>proto\<close> is \<^verbatim>\<open>None\<close> while the prototype of \<^verbatim>\<open>users\<close> is \<^verbatim>\<open>Object.prototype\<close>,
  as the object literal makes it, and \<^verbatim>\<open>Some p\<close> once an assignment to
  \<^verbatim>\<open>users['__proto__']\<close> has put an object with own properties \<^verbatim>\<open>p\<close> (itself an
  object literal) between the two.
\<close>

record users_obj =
  own :: "(string \<times> props) list"
  proto :: "props option"

definition user1 :: props where
  "user1 =
     [(''id'', JStr ''1''),
      (''email'', JStr ''john.doe@example.com''),
      (''firstName'', JStr ''John''),
      (''lastName'', JStr ''Doe''),
      (''phoneNumber'', JStr ''+1-555-123-4567''),
      (''bio'', JStr ''Software engineer passionate about building great user experiences.'')]"

definition user2 :: props where
  "user2 =
     [(''id'', JStr ''2''),
      (''email'', JStr ''jane.smith@example.com''),
      (''firstName'', JStr ''Jane''),
      (''lastName'', JStr ''Smith''),
      (''phoneNumber'', JNull),
      (''bio'', JStr ''Product designer who loves creating intuitive interfaces.'')]"

definition user3 :: props where
  "user3 =
     [(''id'', JStr ''3''),
      (''email'', JStr ''bob.wilson@example.com''),
      (''firstName'', JStr ''Bob''),
      (''lastName'', JStr ''Wilson''),
      (''phoneNumber'', JStr ''+1-555-987-6543''),
      (''bio'', JNull)]"

definition users0 :: users_obj where
  "users0 = \<lparr> own = [(''1'', user1), (''2'', user2), (''3'', user3)], proto = None \<rparr>"

text \<open>
  The data properties of \<^verbatim>\<open>Object.prototype\<close> as the language and Node.js provide
  them: its built-in functions, all writable and none enumerable. Its one other
  property is the accessor \<^verbatim>\<open>__proto__\<close>.
\<close>

definition object_prototype_functions :: "string list" where
  "object_prototype_functions =
     [''constructor'', ''__defineGetter__'', ''__defineSetter__'', ''hasOwnProperty'',
      ''__lookupGetter__'', ''__lookupSetter__'', ''isPrototypeOf'', ''propertyIsEnumerable'',
      ''toString'', ''valueOf'', ''toLocaleString'']"

text \<open>
  A property read at \<^verbatim>\<open>Object.prototype\<close>, the end of the chain. The getter of
  \<^verbatim>\<open>__proto__\<close> returns the prototype of the object the read started from.
\<close>

definition object_prototype_get :: "users_obj \<Rightarrow> string \<Rightarrow> jsval" where
  "object_prototype_get users k =
     (if k = ''__proto__'' then
        (case proto users of None \<Rightarrow> ObjectPrototype | Some p \<Rightarrow> Data (JObj p))
      else if k \<in> set object_prototype_functions then Builtin k
      else Data JUndefined)"

text \<open>
  \<^verbatim>\<open>users[userId]\<close>: the own property, else the property of the prototype chain.
\<close>

definition users_get :: "users_obj \<Rightarrow> string \<Rightarrow> jsval" where
  "users_get users userId =
     (case map_of (own users) userId of
        Some r \<Rightarrow> Data (JObj r)
      | None \<Rightarrow>
          (case proto users of
             None \<Rightarrow> object_prototype_get users userId
           | Some p \<Rightarrow>
               (case map_of p userId of
                  Some v \<Rightarrow> Data v
                | None \<Rightarrow> object_prototype_get users userId)))"

subsection \<open>Responses\<close>

record response =
  status :: nat
  body :: jsval

text \<open>\<^verbatim>\<open>res.status(n).json({ message: m })\<close>\<close>

definition message :: "nat \<Rightarrow> string \<Rightarrow> response" where
  "message n m = \<lparr> status = n, body = Data (JObj [(''message'', JStr m)]) \<rparr>"

text \<open>\<^verbatim>\<open>res.json(v)\<close>, with the default status.\<close>

definition json :: "jsval \<Rightarrow> response" where
  "json v = \<lparr> status = 200, body = v \<rparr>"

subsection \<open>\<^verbatim>\<open>GET /api/users/:userId\<close>\<close>

definition get_user :: "users_obj \<Rightarrow> string \<Rightarrow> users_obj \<times> response" where
  "get_user users userId =
     (let user = users_get users userId in
      if \<not> truthy_val user then
        (users, message 404 (''User with ID '' @ userId @ '' not found''))
      else (users, json user))"

subsection \<open>Conversion to a string\<close>

text \<open>
  The decimal digits of a natural number and of an integer. An array index prints as
  \<^verbatim>\<open>show_nat\<close> of it, and a number in the range of \<^verbatim>\<open>JNum\<close> as
  \<^verbatim>\<open>show_int\<close> of its value; \<^verbatim>\<open>show_int\<close> is applied to no other number.
\<close>

fun show_nat :: "nat \<Rightarrow> string" where
  "show_nat n =
     (if n < 10 then [''0123456789'' ! n]
      else show_nat (n div 10) @ [''0123456789'' ! (n mod 10)])"

declare show_nat.simps [simp del]

definition show_int :: "int \<Rightarrow> string" where
  "show_int i = (if i < 0 then CHR ''-'' # show_nat (nat (- i)) else show_nat (nat i))"

text \<open>
  \<^verbatim>\<open>ToString\<close>, which \<^verbatim>\<open>RegExp.prototype.test\<close> applies to its argument; \<^verbatim>\<open>None\<close>
  is the \<^verbatim>\<open>TypeError\<close> it throws. An array joins its elements with commas, with
  \<^verbatim>\<open>undefined\<close> and \<^verbatim>\<open>null\<close> as the empty string. An object converts through
  its \<^verbatim>\<open>toString\<close> property: the inherited function answers
  \<^verbatim>\<open>[object Object]\<close>; an own property of that name holds data, which cannot be
  called, and neither that nor \<^verbatim>\<open>valueOf\<close> then gives a primitive.
\<close>

fun to_string :: "jsdata \<Rightarrow> string option"
  and join :: "jsdata list \<Rightarrow> string option"
where
  "to_string JUndefined = Some ''undefined''"
| "to_string JNull = Some ''null''"
| "to_string (JBool b) = Some (if b then ''true'' else ''false'')"
| "to_string (JNum n) = Some (show_int (sint n))"
| "to_string (JStr s) = Some s"
| "to_string (JArr xs) = join xs"
| "to_string (JObj ps) =
     (if ''toString'' \<in> fst ` set ps then None else Some ''[object Object]'')"
| "join [] = Some []"
| "join (x # xs) =
     (case (if x = JUndefined \<or> x = JNull then Some [] else to_string x) of
        None \<Rightarrow> None
      | Some s \<Rightarrow>
          (if xs = [] then Some s
           else (case join xs of None \<Rightarrow> None | Some t \<Rightarrow> Some (s @ CHR '','' # t))))"

subsection \<open>The pattern of an email\<close>

text \<open>
  Regular expressions over characters, matched against the whole string (the pattern
  of the source starts with \<^verbatim>\<open>^\<close> and ends with \<^verbatim>\<open>$\<close>) by taking the derivative
  at each character.
\<close>

datatype regex =
    Fail
  | Eps
  | Class "char \<Rightarrow> bool"
  | Alt regex regex
  | Seq regex regex
  | Star regex

fun nullable :: "regex \<Rightarrow> bool" where
  "nullable Fail = False"
| "nullable Eps = True"
| "nullable (Class P) = False"
| "nullable (Alt r s) = (nullable r \<or> nullable s)"
| "nullable (Seq r s) = (nullable r \<and> nullable s)"
| "nullable (Star r) = True"

fun deriv :: "char \<Rightarrow> regex \<Rightarrow> regex" where
  "deriv c Fail = Fail"
| "deriv c Eps = Fail"
| "deriv c (Class P) = (if P c then Eps else Fail)"
| "deriv c (Alt r s) = Alt (deriv c r) (deriv c s)"
| "deriv c (Seq r s) =
     (if nullable r then Alt (Seq (deriv c r) s) (deriv c s) else Seq (deriv c r) s)"
| "deriv c (Star r) = Seq (deriv c r) (Star r)"

fun matches :: "regex \<Rightarrow> string \<Rightarrow> bool" where
  "matches r [] = nullable r"
| "matches r (c # cs) = matches (deriv c r) cs"

text \<open>\<^verbatim>\<open>r+\<close> and a single character.\<close>

definition one_or_more :: "regex \<Rightarrow> regex" where
  "one_or_more r = Seq r (Star r)"

definition literal :: "char \<Rightarrow> regex" where
  "literal c = Class (\<lambda>x. x = c)"

text \<open>
  \<^verbatim>\<open>\s\<close> on code units below 256: tab, line feed, vertical tab, form feed, carriage
  return, space and the no-break space.
\<close>

definition white_space :: "char \<Rightarrow> bool" where
  "white_space c = (c \<in> set [CHR 0x09, CHR 0x0A, CHR 0x0B, CHR 0x0C, CHR 0x0D, CHR 0x20, CHR 0xA0])"

text \<open>\<^verbatim>\<open>[^\s@]\<close>\<close>

definition not_space_at :: "char \<Rightarrow> bool" where
  "not_space_at c = (\<not> white_space c \<and> c \<noteq> CHR ''@'')"

text \<open>\<^verbatim>\<open>/^[^\s@]+@[^\s@]+\.[^\s@]+$/\<close>\<close>

definition emailRegex :: regex where
  "emailRegex =
     Seq (one_or_more (Class not_space_at))
       (Seq (literal CHR ''@'')
         (Seq (one_or_more (Class not_space_at))
           (Seq (literal CHR ''.'') (one_or_more (Class not_space_at)))))"

text \<open>
  The strings a regular expression stands for, against which the matcher is proved
  right.
\<close>

definition conc :: "string set \<Rightarrow> string set \<Rightarrow> string set" where
  "conc A B = {u @ v | u v. u \<in> A \<and> v \<in> B}"

inductive_set star :: "string set \<Rightarrow> string set" for A :: "string set" where
  star_empty: "[] \<in> star A"
| star_more: "u \<in> A \<Longrightarrow> v \<in> star A \<Longrightarrow> u @ v \<in> star A"

fun lang :: "regex \<Rightarrow> string set" where
  "lang Fail = {}"
| "lang Eps = {[]}"
| "lang (Class P) = {[c] | c. P c}"
| "lang (Alt r s) = lang r \<union> lang s"
| "lang (Seq r s) = conc (lang r) (lang s)"
| "lang (Star r) = star (lang r)"

text \<open>
  The shape \<^verbatim>\<open>local-part@domain.tld\<close> in the words of the specification: three
  non-empty parts without white space and without \<^verbatim>\<open>@\<close>, with an \<^verbatim>\<open>@\<close> after the
  first and a dot after the second.
\<close>

definition email_shape :: "string \<Rightarrow> bool" where
  "email_shape s =
     (\<exists>local_part domain tld.
        s = local_part @ ''@'' @ domain @ ''.'' @ tld
        \<and> local_part \<noteq> [] \<and> domain \<noteq> [] \<and> tld \<noteq> []
        \<and> (\<forall>c \<in> set (local_part @ domain @ tld). \<not> white_space c \<and> c \<noteq> CHR ''@''))"

text \<open>
  \<^verbatim>\<open>emailRegex.test(v)\<close>: the argument is converted to a string first; \<^verbatim>\<open>None\<close>
  when the conversion throws.
\<close>

definition test :: "regex \<Rightarrow> jsdata \<Rightarrow> bool option" where
  "test r v = (case to_string v of None \<Rightarrow> None | Some s \<Rightarrow> Some (matches r s))"

subsection \<open>\<^verbatim>\<open>PUT /api/users/:userId\<close>\<close>

text \<open>\<^verbatim>\<open>!x\<close>\<close>

definition falsy :: "jsdata \<Rightarrow> bool" where
  "falsy v = (if truthy v then False else True)"

text \<open>\<^verbatim>\<open>x || null\<close>\<close>

definition or_null :: "jsdata \<Rightarrow> jsdata" where
  "or_null v = (if truthy v then v else JNull)"

text \<open>
  A property that \<^verbatim>\<open>const { ... } = req.body\<close> reads. Only an object parsed from
  JSON has own properties of these names; on any other value that can be destructured
  the property is \<^verbatim>\<open>undefined\<close>.
\<close>

definition body_prop :: "jsdata \<Rightarrow> string \<Rightarrow> jsdata" where
  "body_prop b k = (case b of JObj ps \<Rightarrow> get_prop ps k | _ \<Rightarrow> JUndefined)"

text \<open>
  The own enumerable properties that \<^verbatim>\<open>{ ...user }\<close> copies: those of an object,
  the elements of an array and the characters of a string under their indices, and
  none of a function or of \<^verbatim>\<open>Object.prototype\<close>, whose properties are not
  enumerable.
\<close>

definition indexed :: "jsdata list \<Rightarrow> props" where
  "indexed xs = zip (map show_nat [0..<length xs]) xs"

fun spread :: "jsval \<Rightarrow> props" where
  "spread (Data (JObj ps)) = ps"
| "spread (Data (JArr xs)) = indexed xs"
| "spread (Data (JStr s)) = indexed (map (\<lambda>c. JStr [c]) s)"
| "spread (Data JUndefined) = []"
| "spread (Data JNull) = []"
| "spread (Data (JBool b)) = []"
| "spread (Data (JNum n)) = []"
| "spread (Builtin f) = []"
| "spread ObjectPrototype = []"

text \<open>
  The object literal of the update:
  \<^verbatim>\<open>{ ...user, email, firstName, lastName, phoneNumber: phoneNumber || null, bio: bio || null }\<close>
\<close>

definition updated_user :: "jsval \<Rightarrow> jsdata \<Rightarrow> jsdata \<Rightarrow> jsdata \<Rightarrow> jsdata \<Rightarrow> jsdata \<Rightarrow> props" where
  "updated_user user email firstName lastName phoneNumber bio =
     set_prop ''bio'' (or_null bio)
       (set_prop ''phoneNumber'' (or_null phoneNumber)
         (set_prop ''lastName'' lastName
           (set_prop ''firstName'' firstName
             (set_prop ''email'' email (spread user)))))"

text \<open>
  \<^verbatim>\<open>users[userId] = r\<close>. An own property is overwritten. Otherwise the name is
  looked for along the prototype chain: at the accessor \<^verbatim>\<open>__proto__\<close> of
  \<^verbatim>\<open>Object.prototype\<close> the setter runs and makes \<^verbatim>\<open>r\<close> the prototype of
  \<^verbatim>\<open>users\<close>; at a data property, or when nothing is found, a new own property of
  \<^verbatim>\<open>users\<close> is created.
\<close>

definition reaches_proto_setter :: "users_obj \<Rightarrow> string \<Rightarrow> bool" where
  "reaches_proto_setter users k =
     (k = ''__proto__'' \<and> map_of (own users) k = None
      \<and> (case proto users of None \<Rightarrow> True | Some p \<Rightarrow> map_of p k = None))"

definition users_set :: "users_obj \<Rightarrow> string \<Rightarrow> props \<Rightarrow> users_obj" where
  "users_set users userId r =
     (if reaches_proto_setter users userId then users\<lparr> proto := Some r \<rparr>
      else users\<lparr> own := set_prop userId r (own users) \<rparr>)"

text \<open>
  The handler. \<^verbatim>\<open>req_body\<close> is \<^verbatim>\<open>req.body\<close>, \<^verbatim>\<open>JUndefined\<close> when the request
  had no body that was parsed. Destructuring \<^verbatim>\<open>undefined\<close> or \<^verbatim>\<open>null\<close> throws,
  and so can the conversion of \<^verbatim>\<open>email\<close> to a string; the \<^verbatim>\<open>catch\<close> answers
  both with status 500.
\<close>

definition put_user :: "users_obj \<Rightarrow> string \<Rightarrow> jsdata \<Rightarrow> users_obj \<times> response" where
  "put_user users userId req_body =
     (let user = users_get users userId in
      if \<not> truthy_val user then
        (users, message 404 (''User with ID '' @ userId @ '' not found''))
      else if req_body = JUndefined \<or> req_body = JNull then
        (users, message 500 ''Internal server error'')
      else
        let email = body_prop req_body ''email'';
            firstName = body_prop req_body ''firstName'';
            lastName = body_prop req_body ''lastName'';
            phoneNumber = body_prop req_body ''phoneNumber'';
            bio = body_prop req_body ''bio''
        in
        if falsy email \<or> falsy firstName \<or> falsy lastName then
          (users, message 400 ''Email, firstName, and lastName are required fields'')
        else
          (case test emailRegex email of
             None \<Rightarrow> (users, message 500 ''Internal server error'')
           | Some matched \<Rightarrow>
               if \<not> matched then (users, message 400 ''Invalid email format'')
               else
                 let users' = users_set users userId
                       (updated_user user email firstName lastName phoneNumber bio)
                 in (users', json (users_get users' userId))))"

text \<open>
  The record that an accepted update stores when the lookup gave \<^verbatim>\<open>user\<close>: the
  object literal over the properties read from the body.
\<close>

definition merged :: "jsval \<Rightarrow> jsdata \<Rightarrow> props" where
  "merged user req_body =
     updated_user user (body_prop req_body ''email'') (body_prop req_body ''firstName'')
       (body_prop req_body ''lastName'') (body_prop req_body ''phoneNumber'') (body_prop req_body ''bio'')"

subsection \<open>Requests in flight\<close>

text \<open>
  Each handler awaits its timer once, at its first statement, and runs from there to
  its response without another \<^verbatim>\<open>await\<close>: on the single thread of the event loop
  the rest of a handler is one uninterrupted step. Requests in flight at the same
  time differ from requests sent one after the other only in the order of these
  steps, which the timers and the arrival times decide. \<^verbatim>\<open>run\<close> takes the requests in
  the order in which their handlers resume.
\<close>

datatype request = GET string | PUT string jsdata

fun handle :: "users_obj \<Rightarrow> request \<Rightarrow> users_obj \<times> response" where
  "handle users (GET userId) = get_user users userId"
| "handle users (PUT userId req_body) = put_user users userId req_body"

fun run :: "users_obj \<Rightarrow> request list \<Rightarrow> users_obj \<times> response list" where
  "run users [] = (users, [])"
| "run users (q # qs) =
     (case handle users q of (users', resp) \<Rightarrow>
        (case run users' qs of (users'', resps) \<Rightarrow> (users'', resp # resps)))"

text \<open>The states of \<^verbatim>\<open>users\<close> that the server can be in: the seeded one and what requests make of it.\<close>

inductive reachable :: "users_obj \<Rightarrow> bool" where
  reachable_start: "reachable users0"
| reachable_request: "reachable users \<Longrightarrow> reachable (fst (handle users q))"

section \<open>Properties\<close>

subsection \<open>Property lists\<close>

lemma users_get_own: "map_of (own users) userId = Some r \<Longrightarrow> users_get users userId = Data (JObj r)"
  by (simp add: users_get_def)

lemma map_of_set_prop: "map_of (set_prop k v ps) = (map_of ps)(k \<mapsto> v)"
  by (induction ps) auto

lemma keys_set_prop: "fst ` set (set_prop k v ps) = insert k (fst ` set ps)"
  by (induction ps) auto

lemma set_prop_twice: "set_prop k v (set_prop k w ps) = set_prop k v ps"
  by (induction ps) auto

text \<open>
  Two definitions of different properties commute when one of the properties is already
  there; the five properties of the object literal, defined again in the same order,
  give the same list.
\<close>

lemma set_prop_swap:
  "k \<noteq> k' \<Longrightarrow> k \<in> fst ` set ps \<Longrightarrow>
     set_prop k v (set_prop k' w ps) = set_prop k' w (set_prop k v ps)"
  by (induction ps) auto

lemmas push_email = set_prop_swap [of "''email''" "''firstName''"]
  set_prop_swap [of "''email''" "''lastName''"] set_prop_swap [of "''email''" "''phoneNumber''"]
  set_prop_swap [of "''email''" "''bio''"]

lemmas push_firstName = set_prop_swap [of "''firstName''" "''lastName''"]
  set_prop_swap [of "''firstName''" "''phoneNumber''"] set_prop_swap [of "''firstName''" "''bio''"]

lemmas push_lastName = set_prop_swap [of "''lastName''" "''phoneNumber''"]
  set_prop_swap [of "''lastName''" "''bio''"]

lemmas push_phoneNumber = set_prop_swap [of "''phoneNumber''" "''bio''"]

lemma updated_user_twice:
  "updated_user (Data (JObj (updated_user user e1 f1 l1 p1 b1))) e2 f2 l2 p2 b2 =
   updated_user user e2 f2 l2 p2 b2"
  unfolding updated_user_def spread.simps
  by (simp add: push_email push_firstName push_lastName push_phoneNumber keys_set_prop set_prop_twice)

lemma merged_twice: "merged (Data (JObj (merged user b1))) b2 = merged user b2"
  by (simp add: merged_def updated_user_twice)

lemma map_of_updated_user:
  "map_of (updated_user user e f l p b) =
     (map_of (spread user))(''email'' \<mapsto> e, ''firstName'' \<mapsto> f, ''lastName'' \<mapsto> l,
        ''phoneNumber'' \<mapsto> or_null p, ''bio'' \<mapsto> or_null b)"
  by (simp add: updated_user_def map_of_set_prop)

lemma users_set_own:
  "map_of (own users) userId = Some r \<Longrightarrow>
     users_set users userId r' = users\<lparr> own := set_prop userId r' (own users) \<rparr>"
  by (simp add: users_set_def reaches_proto_setter_def)

subsection \<open>What the update handler stores\<close>

text \<open>
  On an identifier of the mapping, a body that passes both checks is merged into the
  stored record, and only such a body is answered with status 200.
\<close>

lemma put_user_accepts:
  assumes known: "map_of (own users) userId = Some r"
    and present: "truthy (body_prop req_body ''email'')" "truthy (body_prop req_body ''firstName'')"
       "truthy (body_prop req_body ''lastName'')"
    and str: "to_string (body_prop req_body ''email'') = Some e"
    and shape: "matches emailRegex e"
  shows "put_user users userId req_body =
     (users\<lparr> own := set_prop userId (merged (Data (JObj r)) req_body) (own users) \<rparr>,
      json (Data (JObj (merged (Data (JObj r)) req_body))))"
proof -
  have nb: "req_body \<noteq> JUndefined" "req_body \<noteq> JNull"
    using present(1) by (auto simp: body_prop_def)
  show ?thesis
    using assms nb
    by (simp add: put_user_def users_get_own Let_def falsy_def test_def users_set_own
        users_get_def map_of_set_prop merged_def)
qed

lemma put_user_200:
  assumes known: "map_of (own users) userId = Some r"
    and ok: "status (snd (put_user users userId req_body)) = 200"
  shows "truthy (body_prop req_body ''email'') \<and> truthy (body_prop req_body ''firstName'') \<and>
       truthy (body_prop req_body ''lastName'') \<and>
       (\<exists>e. to_string (body_prop req_body ''email'') = Some e \<and> matches emailRegex e)"
  using assms
  by (auto simp: put_user_def users_get_own Let_def falsy_def test_def message_def
      split: if_splits option.splits)

lemma put_user_200_stored:
  assumes known: "map_of (own users) userId = Some r"
    and upd: "put_user users userId req_body = (users', resp)"
    and ok: "status resp = 200"
  shows "users' = users\<lparr> own := set_prop userId (merged (Data (JObj r)) req_body) (own users) \<rparr>
       \<and> resp = json (Data (JObj (merged (Data (JObj r)) req_body)))"
proof -
  from upd ok have "status (snd (put_user users userId req_body)) = 200" by simp
  from put_user_200 [OF known this] obtain e where
    "truthy (body_prop req_body ''email'')" "truthy (body_prop req_body ''firstName'')"
    "truthy (body_prop req_body ''lastName'')" "to_string (body_prop req_body ''email'') = Some e"
    "matches emailRegex e" by blast
  from put_user_accepts [OF known this] upd show ?thesis by simp
qed

lemma or_null_JNull_iff:
  "(or_null v = JNull) = (v \<in> {JUndefined, JNull, JStr '''', JBool False, JNum 0})"
  by (cases v) (simp_all add: or_null_def)

lemma or_null_falsy: "or_null v = (if falsy v then JNull else v)"
  by (simp add: or_null_def falsy_def)

text \<open>
  On any identifier, what an update answered with status 200 has assigned is what the
  lookup of that identifier gives next, also when the assignment went to the setter of
  \<^verbatim>\<open>__proto__\<close>.
\<close>

lemma users_get_proto_set:
  assumes "reaches_proto_setter users userId" and "map_of r ''__proto__'' = None"
  shows "users_get (users\<lparr> proto := Some r \<rparr>) userId = Data (JObj r)"
  using assms
  by (auto simp: reaches_proto_setter_def users_get_def object_prototype_get_def)

lemma spread_at_proto_setter:
  assumes "reaches_proto_setter users userId"
  shows "map_of (spread (users_get users userId)) ''__proto__'' = None"
  using assms
  by (auto simp: reaches_proto_setter_def users_get_def object_prototype_get_def
      split: option.splits)

lemma users_get_users_set:
  "users_get (users_set users userId (updated_user (users_get users userId) e f l ph b)) userId =
     Data (JObj (updated_user (users_get users userId) e f l ph b))"
proof (cases "reaches_proto_setter users userId")
  case False
  then show ?thesis
    by (simp add: users_set_def users_get_own map_of_set_prop)
next
  case True
  define r where "r = updated_user (users_get users userId) e f l ph b"
  have "map_of r ''__proto__'' = None"
    using spread_at_proto_setter [OF True] by (simp add: r_def map_of_updated_user)
  from users_get_proto_set [OF True this] True show ?thesis
    by (simp add: users_set_def r_def)
qed

lemma put_user_200_any:
  assumes upd: "put_user users userId req_body = (users', resp)"
    and ok: "status resp = 200"
  shows "users_get users' userId = Data (JObj (merged (users_get users userId) req_body))
       \<and> resp = json (Data (JObj (merged (users_get users userId) req_body)))"
  using assms users_get_users_set [of users userId]
  by (auto simp: put_user_def Let_def message_def merged_def split: if_splits option.splits)

lemma run_two_updates_any:
  assumes ran: "run users [PUT userId a, PUT userId c] = (users', resps)"
    and ok: "list_all (\<lambda>resp. status resp = 200) resps"
  shows "users_get users' userId = Data (JObj (merged (users_get users userId) c))"
proof -
  obtain u1 ra where first: "put_user users userId a = (u1, ra)"
    by (cases "put_user users userId a")
  obtain u2 rc where second: "put_user u1 userId c = (u2, rc)"
    by (cases "put_user u1 userId c")
  from ran first second have res: "users' = u2" "resps = [ra, rc]"
    by simp_all
  with ok have st: "status ra = 200" "status rc = 200"
    by simp_all
  from put_user_200_any [OF first st(1)]
  have u1: "users_get u1 userId = Data (JObj (merged (users_get users userId) a))"
    by simp
  from put_user_200_any [OF second st(2)] res(1)
  show ?thesis by (simp add: u1 merged_twice)
qed

lemma jane_roe: "matches emailRegex ''jane.roe@example.org''"
  by (simp add: emailRegex_def one_or_more_def literal_def not_space_at_def white_space_def)

subsection \<open>The matcher and the pattern\<close>

lemma nil_in_conc: "[] \<in> conc A B \<longleftrightarrow> [] \<in> A \<and> [] \<in> B"
  by (auto simp: conc_def)

lemma nullable_lang: "nullable r \<longleftrightarrow> [] \<in> lang r"
  by (induction r) (auto simp: nil_in_conc intro: star_empty)

lemma cons_in_conc:
  "c # w \<in> conc A B \<longleftrightarrow>
     ([] \<in> A \<and> c # w \<in> B) \<or> (\<exists>u v. w = u @ v \<and> c # u \<in> A \<and> v \<in> B)"
proof
  assume "c # w \<in> conc A B"
  then obtain x y where xy: "c # w = x @ y" "x \<in> A" "y \<in> B"
    by (auto simp: conc_def)
  show "([] \<in> A \<and> c # w \<in> B) \<or> (\<exists>u v. w = u @ v \<and> c # u \<in> A \<and> v \<in> B)"
  proof (cases x)
    case Nil
    with xy show ?thesis by simp
  next
    case (Cons a x')
    with xy have "w = x' @ y" "c # x' \<in> A" by simp_all
    with xy(3) show ?thesis by blast
  qed
next
  assume "([] \<in> A \<and> c # w \<in> B) \<or> (\<exists>u v. w = u @ v \<and> c # u \<in> A \<and> v \<in> B)"
  then show "c # w \<in> conc A B"
  proof
    assume "[] \<in> A \<and> c # w \<in> B"
    then have "[] @ (c # w) \<in> conc A B"
      unfolding conc_def by blast
    then show ?thesis by simp
  next
    assume "\<exists>u v. w = u @ v \<and> c # u \<in> A \<and> v \<in> B"
    then obtain u v where "w = u @ v" "c # u \<in> A" "v \<in> B" by blast
    then have "(c # u) @ v \<in> conc A B"
      unfolding conc_def by blast
    with \<open>w = u @ v\<close> show ?thesis by simp
  qed
qed

lemma star_cons_split:
  assumes "x \<in> star A" and "x = c # w"
  shows "\<exists>u v. w = u @ v \<and> c # u \<in> A \<and> v \<in> star A"
  using assms
proof (induction arbitrary: c w rule: star.induct)
  case star_empty
  then show ?case by simp
next
  case (star_more u v)
  show ?case
  proof (cases u)
    case Nil
    with star_more show ?thesis by simp
  next
    case (Cons a u')
    with star_more.prems have "w = u' @ v" "a = c" by simp_all
    with star_more.hyps Cons show ?thesis by blast
  qed
qed

lemma cons_in_star:
  "c # w \<in> star A \<longleftrightarrow> (\<exists>u v. w = u @ v \<and> c # u \<in> A \<and> v \<in> star A)"
proof
  assume "c # w \<in> star A"
  then show "\<exists>u v. w = u @ v \<and> c # u \<in> A \<and> v \<in> star A"
    by (rule star_cons_split) simp
next
  assume "\<exists>u v. w = u @ v \<and> c # u \<in> A \<and> v \<in> star A"
  then obtain u v where "w = u @ v" "c # u \<in> A" "v \<in> star A" by blast
  then have "(c # u) @ v \<in> star A" by (blast intro: star_more)
  with \<open>w = u @ v\<close> show "c # w \<in> star A" by simp
qed

lemma deriv_lang: "w \<in> lang (deriv c r) \<longleftrightarrow> c # w \<in> lang r"
proof (induction r arbitrary: w)
  case (Seq r s)
  have "w \<in> conc (lang (deriv c r)) (lang s) \<longleftrightarrow>
      (\<exists>u v. w = u @ v \<and> c # u \<in> lang r \<and> v \<in> lang s)"
    using Seq.IH(1) by (auto simp: conc_def)
  with Seq.IH(2) show ?case
    by (auto simp: cons_in_conc nullable_lang)
next
  case (Star r)
  have "w \<in> conc (lang (deriv c r)) (star (lang r)) \<longleftrightarrow>
      (\<exists>u v. w = u @ v \<and> c # u \<in> lang r \<and> v \<in> star (lang r))"
    using Star.IH by (auto simp: conc_def)
  then show ?case
    by (simp add: cons_in_star)
qed auto

lemma matches_lang: "matches r w \<longleftrightarrow> w \<in> lang r"
  by (induction w arbitrary: r) (simp_all add: nullable_lang deriv_lang)

lemma star_class: "star {[c] | c. P c} = {w. \<forall>c \<in> set w. P c}"
proof (intro set_eqI iffI)
  fix w assume "w \<in> star {[c] | c. P c}"
  then show "w \<in> {w. \<forall>c \<in> set w. P c}"
    by (induction rule: star.induct) auto
next
  fix w assume "w \<in> {w. \<forall>c \<in> set w. P c}"
  then have "\<forall>c \<in> set w. P c" by simp
  then show "w \<in> star {[c] | c. P c}"
  proof (induction w)
    case Nil
    show ?case by (rule star_empty)
  next
    case (Cons a w)
    then have "[a] \<in> {[c] | c. P c}" "w \<in> star {[c] | c. P c}" by simp_all
    then have "[a] @ w \<in> star {[c] | c. P c}" by (rule star_more)
    then show ?case by simp
  qed
qed

lemma lang_one_or_more: "lang (one_or_more (Class P)) = {w. w \<noteq> [] \<and> (\<forall>c \<in> set w. P c)}"
proof (intro set_eqI iffI)
  fix w assume "w \<in> lang (one_or_more (Class P))"
  then show "w \<in> {w. w \<noteq> [] \<and> (\<forall>c \<in> set w. P c)}"
    by (auto simp: one_or_more_def conc_def star_class)
next
  fix w assume "w \<in> {w. w \<noteq> [] \<and> (\<forall>c \<in> set w. P c)}"
  then obtain a w' where "w = a # w'" "P a" "\<forall>c \<in> set w'. P c"
    by (cases w) auto
  then have "[a] \<in> lang (Class P)" "w' \<in> star (lang (Class P))" "w = [a] @ w'"
    by (simp_all add: star_class)
  then show "w \<in> lang (one_or_more (Class P))"
    unfolding one_or_more_def lang.simps conc_def by blast
qed

lemma lang_literal: "lang (literal c) = {[c]}"
  by (auto simp: literal_def)

lemma concI: "u \<in> A \<Longrightarrow> v \<in> B \<Longrightarrow> u @ v \<in> conc A B"
  unfolding conc_def by blast

lemma concE:
  assumes "w \<in> conc A B"
  obtains u v where "w = u @ v" "u \<in> A" "v \<in> B"
  using assms unfolding conc_def by blast

lemma email_shapeE:
  assumes "email_shape s"
  obtains l d t where "s = l @ ''@'' @ d @ ''.'' @ t" "l \<noteq> []" "d \<noteq> []" "t \<noteq> []"
    "\<forall>c \<in> set (l @ d @ t). \<not> white_space c \<and> c \<noteq> CHR ''@''"
  using assms unfolding email_shape_def by (elim exE conjE)

lemma email_shapeI:
  assumes "s = l @ ''@'' @ d @ ''.'' @ t" "l \<noteq> []" "d \<noteq> []" "t \<noteq> []"
    "\<forall>c \<in> set (l @ d @ t). \<not> white_space c \<and> c \<noteq> CHR ''@''"
  shows "email_shape s"
  unfolding email_shape_def using assms by (intro exI [of _ l] exI [of _ d] exI [of _ t] conjI)

text \<open>The pattern of the source matches exactly the strings of the shape the specification names.\<close>

lemma matches_emailRegex_iff: "matches emailRegex s \<longleftrightarrow> email_shape s"
proof
  let ?part = "lang (one_or_more (Class not_space_at))"
  assume "matches emailRegex s"
  then have "s \<in> conc ?part (conc {''@''} (conc ?part (conc {''.''} ?part)))"
    by (simp add: matches_lang emailRegex_def lang_literal del: lang.simps(3))
  then obtain l x where 1: "s = l @ x" "l \<in> ?part"
    "x \<in> conc {''@''} (conc ?part (conc {''.''} ?part))"
    by (rule concE)
  from 1(3) obtain a y where 2: "x = a @ y" "a \<in> {''@''}" "y \<in> conc ?part (conc {''.''} ?part)"
    by (rule concE)
  from 2(3) obtain d z where 3: "y = d @ z" "d \<in> ?part" "z \<in> conc {''.''} ?part"
    by (rule concE)
  from 3(3) obtain b t where 4: "z = b @ t" "b \<in> {''.''}" "t \<in> ?part"
    by (rule concE)
  have s: "s = l @ ''@'' @ d @ ''.'' @ t"
    using 1(1) 2(1,2) 3(1) 4(1,2) by simp
  have "l \<noteq> [] \<and> d \<noteq> [] \<and> t \<noteq> [] \<and> (\<forall>c \<in> set (l @ d @ t). \<not> white_space c \<and> c \<noteq> CHR ''@'')"
    using 1(2) 3(2) 4(3) by (auto simp: lang_one_or_more not_space_at_def)
  with s show "email_shape s"
    by (intro email_shapeI [of s l d t]) simp_all
next
  let ?part = "lang (one_or_more (Class not_space_at))"
  assume "email_shape s"
  then obtain l d t where s: "s = l @ ''@'' @ d @ ''.'' @ t"
    and ne: "l \<noteq> []" "d \<noteq> []" "t \<noteq> []"
    and ok: "\<forall>c \<in> set (l @ d @ t). \<not> white_space c \<and> c \<noteq> CHR ''@''"
    by (rule email_shapeE)
  have parts: "l \<in> ?part" "d \<in> ?part" "t \<in> ?part"
    using ne ok by (simp_all add: lang_one_or_more not_space_at_def)
  have dot: "''.'' @ t \<in> conc {''.''} ?part"
    using concI [of "''.''" "{''.''}" t ?part] parts(3) by simp
  have dom: "d @ ''.'' @ t \<in> conc ?part (conc {''.''} ?part)"
    using parts(2) dot by (rule concI)
  have at: "''@'' @ d @ ''.'' @ t \<in> conc {''@''} (conc ?part (conc {''.''} ?part))"
    using concI [of "''@''" "{''@''}" "d @ ''.'' @ t"] dom by simp
  have "l @ ''@'' @ d @ ''.'' @ t \<in> conc ?part (conc {''@''} (conc ?part (conc {''.''} ?part)))"
    using parts(1) at by (rule concI)
  then show "matches emailRegex s"
    by (simp add: matches_lang emailRegex_def lang_literal s del: lang.simps(3))
qed

subsection \<open>The claims\<close>

text \<open>
  C1. Fetching an identifier that the record mapping holds returns status 200, the body
  is exactly the stored record, and the mapping is unchanged.
\<close>

theorem fetch_known_identifier:
  assumes "map_of (own users) userId = Some r"
  shows "get_user users userId = (users, \<lparr> status = 200, body = Data (JObj r) \<rparr>)"
  using assms by (simp add: get_user_def users_get_own json_def)

theorem fetch_known_identifier_witness:
  "map_of (own users0) ''2'' = Some user2
   \<and> get_user users0 ''2'' = (users0, \<lparr> status = 200, body = Data (JObj user2) \<rparr>)"
proof -
  have h: "map_of (own users0) ''2'' = Some user2"
    by (simp add: users0_def)
  show ?thesis using h fetch_known_identifier [OF h] by simp
qed

text \<open>
  C2. Fetching an identifier that the record mapping does not hold is to return status
  404 with a message naming the identifier. The handler tests the value of
  \<^verbatim>\<open>users[userId]\<close>, and for the name of a property that \<^verbatim>\<open>users\<close> inherits
  from \<^verbatim>\<open>Object.prototype\<close> that value is not \<^verbatim>\<open>undefined\<close>: the identifier
  \<^verbatim>\<open>constructor\<close> is not in the mapping and is answered with status 200.
\<close>

theorem fetch_inherited_identifier:
  "map_of (own users0) ''constructor'' = None
   \<and> get_user users0 ''constructor'' = (users0, \<lparr> status = 200, body = Builtin ''constructor'' \<rparr>)"
  by (simp add: users0_def get_user_def users_get_def object_prototype_get_def
      object_prototype_functions_def json_def)

text \<open>
  An identifier that is neither an own property of \<^verbatim>\<open>users\<close> nor found along its
  prototype chain is answered with status 404 and the message that names it.
\<close>

lemma users_get_unknown:
  assumes "map_of (own users) userId = None" and "proto users = None"
    and "userId \<noteq> ''__proto__''" and "userId \<notin> set object_prototype_functions"
  shows "users_get users userId = Data JUndefined"
  using assms by (simp add: users_get_def object_prototype_get_def)

lemma fetch_unknown_identifier:
  assumes "map_of (own users) userId = None" and "proto users = None"
    and "userId \<noteq> ''__proto__''" and "userId \<notin> set object_prototype_functions"
  shows "get_user users userId = (users, message 404 (''User with ID '' @ userId @ '' not found''))"
  using users_get_unknown [OF assms] by (simp add: get_user_def)

text \<open>
  While the prototype of \<^verbatim>\<open>users\<close> is \<^verbatim>\<open>Object.prototype\<close>, the fetch answers 404
  exactly for the identifiers that are neither in the mapping nor names of
  \<^verbatim>\<open>Object.prototype\<close>; the inherited names are answered with status 200.
\<close>

lemma fetch_404_iff:
  assumes "proto users = None"
  shows "status (snd (get_user users userId)) = 404 \<longleftrightarrow>
           map_of (own users) userId = None \<and> userId \<noteq> ''__proto__''
           \<and> userId \<notin> set object_prototype_functions"
  using assms
  by (auto simp: get_user_def users_get_def object_prototype_get_def message_def json_def
      split: option.splits)

lemma fetch_inherited_function:
  assumes "map_of (own users) userId = None" and "proto users = None"
    and "userId \<in> set object_prototype_functions"
  shows "get_user users userId = (users, \<lparr> status = 200, body = Builtin userId \<rparr>)"
proof -
  have "userId \<noteq> ''__proto__''"
    using assms(3) by (auto simp: object_prototype_functions_def)
  then show ?thesis
    using assms by (simp add: get_user_def users_get_def object_prototype_get_def json_def)
qed

text \<open>
  C3. Updating a known identifier with a payload in which \<^verbatim>\<open>email\<close>,
  \<^verbatim>\<open>firstName\<close> or \<^verbatim>\<open>lastName\<close> is missing or the empty string returns status
  400 with the message about required fields, and the \<^verbatim>\<open>users\<close> object, so the
  stored record too, is unchanged.
\<close>

theorem update_missing_required_field:
  assumes known: "map_of (own users) userId = Some r"
    and key: "k = ''email'' \<or> k = ''firstName'' \<or> k = ''lastName''"
    and missing: "map_of payload k = None \<or> map_of payload k = Some (JStr '''')"
  shows "put_user users userId (JObj payload) =
           (users, \<lparr> status = 400, body = Data (JObj
              [(''message'', JStr ''Email, firstName, and lastName are required fields'')]) \<rparr>)"
proof -
  have "falsy (get_prop payload k)"
    using missing by (auto simp: falsy_def get_prop_def)
  then have "falsy (body_prop (JObj payload) ''email'') \<or> falsy (body_prop (JObj payload) ''firstName'')
      \<or> falsy (body_prop (JObj payload) ''lastName'')"
    using key by (auto simp: body_prop_def)
  then show ?thesis
    using known by (simp add: put_user_def users_get_own Let_def message_def)
qed

theorem update_missing_required_field_witness:
  "map_of (own users0) ''2'' = Some user2
   \<and> map_of [(''email'', JStr ''jane@example.org''), (''firstName'', JStr ''''),
         (''phoneNumber'', JStr ''555'')] ''firstName'' = Some (JStr '''')
   \<and> map_of [(''email'', JStr ''jane@example.org''), (''firstName'', JStr ''''),
         (''phoneNumber'', JStr ''555'')] ''lastName'' = None
   \<and> put_user users0 ''2'' (JObj [(''email'', JStr ''jane@example.org''), (''firstName'', JStr ''''),
         (''phoneNumber'', JStr ''555'')]) =
       (users0, \<lparr> status = 400, body = Data (JObj
          [(''message'', JStr ''Email, firstName, and lastName are required fields'')]) \<rparr>)"
proof -
  have h: "map_of (own users0) ''2'' = Some user2"
    by (simp add: users0_def)
  show ?thesis
    using h update_missing_required_field [OF h, of "''firstName''"
        "[(''email'', JStr ''jane@example.org''), (''firstName'', JStr ''''),
          (''phoneNumber'', JStr ''555'')]"]
    by simp
qed

text \<open>
  C4. Updating a known identifier with a payload whose \<^verbatim>\<open>firstName\<close> and
  \<^verbatim>\<open>lastName\<close> are non-empty and whose \<^verbatim>\<open>email\<close> is a non-empty string that
  does not match the pattern returns status 400 with the message about the email
  format, and the \<^verbatim>\<open>users\<close> object, so the stored record too, is unchanged. The
  string \<^verbatim>\<open>not-an-email\<close> is such an email.
\<close>

theorem update_invalid_email:
  assumes known: "map_of (own users) userId = Some r"
    and email: "map_of payload ''email'' = Some (JStr e)" "e \<noteq> []"
    and present: "truthy (get_prop payload ''firstName'')" "truthy (get_prop payload ''lastName'')"
    and shape: "\<not> matches emailRegex e"
  shows "put_user users userId (JObj payload) =
           (users, \<lparr> status = 400, body = Data (JObj [(''message'', JStr ''Invalid email format'')]) \<rparr>)"
proof -
  have "get_prop payload ''email'' = JStr e"
    using email(1) by (simp add: get_prop_def)
  then show ?thesis
    using known email(2) present shape
    by (simp add: put_user_def users_get_own Let_def body_prop_def falsy_def test_def message_def)
qed

lemma not_an_email: "\<not> matches emailRegex ''not-an-email''"
  by (simp add: emailRegex_def one_or_more_def literal_def not_space_at_def white_space_def)

theorem update_invalid_email_witness:
  "map_of (own users0) ''2'' = Some user2
   \<and> map_of [(''email'', JStr ''not-an-email''), (''firstName'', JStr ''Jane''),
         (''lastName'', JStr ''Smith'')] ''email'' = Some (JStr ''not-an-email'')
   \<and> \<not> matches emailRegex ''not-an-email''
   \<and> put_user users0 ''2'' (JObj [(''email'', JStr ''not-an-email''), (''firstName'', JStr ''Jane''),
         (''lastName'', JStr ''Smith'')]) =
       (users0, \<lparr> status = 400, body = Data (JObj [(''message'', JStr ''Invalid email format'')]) \<rparr>)"
proof -
  have h: "map_of (own users0) ''2'' = Some user2"
    by (simp add: users0_def)
  show ?thesis
    using h not_an_email update_invalid_email [OF h, of
        "[(''email'', JStr ''not-an-email''), (''firstName'', JStr ''Jane''),
          (''lastName'', JStr ''Smith'')]" "''not-an-email''"]
    by (simp add: get_prop_def)
qed

text \<open>
  C5. Updating a known identifier with a payload that passes both checks returns
  status 200 with the merged record; the merged record replaces the stored one, so a
  fetch that follows returns it; its \<^verbatim>\<open>email\<close>, \<^verbatim>\<open>firstName\<close> and
  \<^verbatim>\<open>lastName\<close> are the submitted ones; and an optional field that the payload
  omits is stored as \<^verbatim>\<open>null\<close>.
\<close>

theorem update_valid_payload:
  assumes known: "map_of (own users) userId = Some r"
    and present: "truthy (get_prop payload ''email'')" "truthy (get_prop payload ''firstName'')"
       "truthy (get_prop payload ''lastName'')"
    and str: "to_string (get_prop payload ''email'') = Some e"
    and shape: "matches emailRegex e"
    and r': "r' = merged (Data (JObj r)) (JObj payload)"
    and users': "users' = users\<lparr> own := set_prop userId r' (own users) \<rparr>"
  shows "put_user users userId (JObj payload) = (users', \<lparr> status = 200, body = Data (JObj r') \<rparr>)
     \<and> map_of (own users') userId = Some r'
     \<and> get_user users' userId = (users', \<lparr> status = 200, body = Data (JObj r') \<rparr>)
     \<and> map_of r' ''email'' = Some (get_prop payload ''email'')
     \<and> map_of r' ''firstName'' = Some (get_prop payload ''firstName'')
     \<and> map_of r' ''lastName'' = Some (get_prop payload ''lastName'')
     \<and> map_of r' ''phoneNumber'' = Some (or_null (get_prop payload ''phoneNumber''))
     \<and> map_of r' ''bio'' = Some (or_null (get_prop payload ''bio''))
     \<and> (map_of payload ''phoneNumber'' = None \<longrightarrow> map_of r' ''phoneNumber'' = Some JNull)
     \<and> (map_of payload ''bio'' = None \<longrightarrow> map_of r' ''bio'' = Some JNull)"
proof -
  have f: "\<And>k. body_prop (JObj payload) k = get_prop payload k"
    by (simp add: body_prop_def)
  have put: "put_user users userId (JObj payload) = (users', json (Data (JObj r')))"
    using put_user_accepts [OF known, of "JObj payload" e] present str shape
    by (simp add: f r' users')
  have stored: "map_of (own users') userId = Some r'"
    by (simp add: users' map_of_set_prop)
  have get: "get_user users' userId = (users', json (Data (JObj r')))"
    using stored by (simp add: get_user_def users_get_own)
  have fields: "map_of r' = (map_of r)(''email'' \<mapsto> get_prop payload ''email'',
      ''firstName'' \<mapsto> get_prop payload ''firstName'', ''lastName'' \<mapsto> get_prop payload ''lastName'',
      ''phoneNumber'' \<mapsto> or_null (get_prop payload ''phoneNumber''),
      ''bio'' \<mapsto> or_null (get_prop payload ''bio''))"
    by (simp add: r' merged_def map_of_updated_user f)
  have omitted: "\<And>k. map_of payload k = None \<Longrightarrow> or_null (get_prop payload k) = JNull"
    by (simp add: get_prop_def or_null_def)
  show ?thesis
    using put stored get omitted by (simp add: fields json_def)
qed

theorem update_valid_payload_witness:
  "map_of (own users0) ''2'' = Some user2
   \<and> matches emailRegex ''jane.roe@example.org''
   \<and> map_of [(''email'', JStr ''jane.roe@example.org''), (''firstName'', JStr ''Jane''),
         (''lastName'', JStr ''Roe''), (''bio'', JStr ''Designer'')] ''phoneNumber'' = None
   \<and> put_user users0 ''2'' (JObj [(''email'', JStr ''jane.roe@example.org''),
         (''firstName'', JStr ''Jane''), (''lastName'', JStr ''Roe''), (''bio'', JStr ''Designer'')]) =
       (\<lparr> own = [(''1'', user1),
                 (''2'', [(''id'', JStr ''2''), (''email'', JStr ''jane.roe@example.org''),
                          (''firstName'', JStr ''Jane''), (''lastName'', JStr ''Roe''),
                          (''phoneNumber'', JNull), (''bio'', JStr ''Designer'')]),
                 (''3'', user3)],
           proto = None \<rparr>,
        \<lparr> status = 200,
          body = Data (JObj [(''id'', JStr ''2''), (''email'', JStr ''jane.roe@example.org''),
                          (''firstName'', JStr ''Jane''), (''lastName'', JStr ''Roe''),
                          (''phoneNumber'', JNull), (''bio'', JStr ''Designer'')]) \<rparr>)"
proof -
  have h: "map_of (own users0) ''2'' = Some user2"
    by (simp add: users0_def)
  show ?thesis
    using h jane_roe update_valid_payload [OF h, of
        "[(''email'', JStr ''jane.roe@example.org''), (''firstName'', JStr ''Jane''),
          (''lastName'', JStr ''Roe''), (''bio'', JStr ''Designer'')]" "''jane.roe@example.org''"
        "merged (Data (JObj user2)) (JObj [(''email'', JStr ''jane.roe@example.org''), (''firstName'', JStr ''Jane''),
          (''lastName'', JStr ''Roe''), (''bio'', JStr ''Designer'')])"
        "users0\<lparr> own := set_prop ''2'' (merged (Data (JObj user2)) (JObj [(''email'', JStr ''jane.roe@example.org''),
          (''firstName'', JStr ''Jane''), (''lastName'', JStr ''Roe''), (''bio'', JStr ''Designer'')]))
          (own users0) \<rparr>"]
    by (simp add: get_prop_def merged_def updated_user_def body_prop_def or_null_def users0_def user2_def)
qed

text \<open>
  C6. Updating an identifier that the record mapping does not hold is to return
  status 404 whatever the payload. For the inherited name \<^verbatim>\<open>constructor\<close> the
  lookup gives a function, the handler goes on to the payload, and the answer is
  status 400 for an empty payload and status 200 for a valid one.
\<close>

theorem update_inherited_identifier:
  "map_of (own users0) ''constructor'' = None
   \<and> status (snd (put_user users0 ''constructor'' (JObj []))) = 400
   \<and> status (snd (put_user users0 ''constructor''
         (JObj [(''email'', JStr ''jane.roe@example.org''), (''firstName'', JStr ''Jane''),
                (''lastName'', JStr ''Roe'')]))) = 200"
  by (simp add: users0_def put_user_def users_get_def object_prototype_get_def
      object_prototype_functions_def Let_def body_prop_def get_prop_def falsy_def message_def
      test_def json_def emailRegex_def one_or_more_def literal_def not_space_at_def white_space_def)

lemma update_unknown_identifier:
  assumes "map_of (own users) userId = None" and "proto users = None"
    and "userId \<noteq> ''__proto__''" and "userId \<notin> set object_prototype_functions"
  shows "put_user users userId req_body =
           (users, message 404 (''User with ID '' @ userId @ '' not found''))"
  using users_get_unknown [OF assms] by (simp add: put_user_def)

text \<open>
  C7. A successful update of a known identifier leaves the \<^verbatim>\<open>id\<close> of the stored
  record as it was, so equal to the key if it was, whatever the body holds (an
  \<^verbatim>\<open>id\<close> too): only \<^verbatim>\<open>email\<close>, \<^verbatim>\<open>firstName\<close>, \<^verbatim>\<open>lastName\<close>,
  \<^verbatim>\<open>phoneNumber\<close> and \<^verbatim>\<open>bio\<close> can change.
\<close>

theorem update_keeps_id:
  assumes known: "map_of (own users) userId = Some r"
    and upd: "put_user users userId req_body = (users', resp)"
    and ok: "status resp = 200"
  shows "\<exists>r'. map_of (own users') userId = Some r'
     \<and> map_of r' ''id'' = map_of r ''id''
     \<and> (map_of r ''id'' = Some (JStr userId) \<longrightarrow> map_of r' ''id'' = Some (JStr userId))
     \<and> (\<forall>k. k \<notin> {''email'', ''firstName'', ''lastName'', ''phoneNumber'', ''bio''}
            \<longrightarrow> map_of r' k = map_of r k)"
proof -
  from put_user_200_stored [OF known upd ok]
  have "map_of (own users') userId = Some (merged (Data (JObj r)) req_body)"
    by (simp add: map_of_set_prop)
  moreover have "\<forall>k. k \<notin> {''email'', ''firstName'', ''lastName'', ''phoneNumber'', ''bio''}
            \<longrightarrow> map_of (merged (Data (JObj r)) req_body) k = map_of r k"
    by (simp add: merged_def map_of_updated_user)
  ultimately show ?thesis by simp
qed

theorem update_keeps_id_witness:
  "map_of (own users0) ''2'' = Some user2
   \<and> map_of user2 ''id'' = Some (JStr ''2'')
   \<and> status (snd (put_user users0 ''2''
         (JObj [(''id'', JStr ''99''), (''email'', JStr ''jane.roe@example.org''),
                (''firstName'', JStr ''Jane''), (''lastName'', JStr ''Roe'')]))) = 200
   \<and> (\<exists>r'. map_of (own (fst (put_user users0 ''2''
         (JObj [(''id'', JStr ''99''), (''email'', JStr ''jane.roe@example.org''),
                (''firstName'', JStr ''Jane''), (''lastName'', JStr ''Roe'')])))) ''2'' = Some r'
        \<and> map_of r' ''id'' = Some (JStr ''2''))"
proof -
  let ?b = "JObj [(''id'', JStr ''99''), (''email'', JStr ''jane.roe@example.org''),
                (''firstName'', JStr ''Jane''), (''lastName'', JStr ''Roe'')]"
  have h: "map_of (own users0) ''2'' = Some user2"
    by (simp add: users0_def)
  have i: "map_of user2 ''id'' = Some (JStr ''2'')"
    by (simp add: user2_def)
  have e: "put_user users0 ''2'' ?b = (fst (put_user users0 ''2'' ?b), snd (put_user users0 ''2'' ?b))"
    by simp
  have ok: "status (snd (put_user users0 ''2'' ?b)) = 200"
    using put_user_accepts [OF h, of ?b "''jane.roe@example.org''"] jane_roe
    by (simp add: body_prop_def get_prop_def json_def)
  from update_keeps_id [OF h e ok] h i ok show ?thesis
    by auto
qed

subsection \<open>The seeded records\<close>

lemma get_user_state: "fst (get_user users userId) = users"
  by (simp add: get_user_def Let_def)

lemma put_user_state:
  "fst (put_user users userId req_body) = users
   \<or> (truthy_val (users_get users userId)
      \<and> fst (put_user users userId req_body) =
          users_set users userId
            (updated_user (users_get users userId) (body_prop req_body ''email'')
               (body_prop req_body ''firstName'') (body_prop req_body ''lastName'')
               (body_prop req_body ''phoneNumber'') (body_prop req_body ''bio'')))"
  by (simp add: put_user_def Let_def split: option.split)

lemma users_set_other:
  assumes "k \<noteq> userId"
  shows "map_of (own (users_set users userId r')) k = map_of (own users) k"
  using assms by (simp add: users_set_def reaches_proto_setter_def map_of_set_prop)

lemma put_user_keeps_seeded_id:
  assumes "map_of (own users) k = Some r" and "map_of r ''id'' = Some (JStr k)"
  shows "\<exists>r'. map_of (own (fst (put_user users userId req_body))) k = Some r'
            \<and> map_of r' ''id'' = Some (JStr k)"
proof (cases "k = userId")
  case False
  then show ?thesis
    using put_user_state [of users userId req_body] assms
    by (auto simp: users_set_other)
next
  case True
  show ?thesis
    using put_user_state [of users userId req_body] assms
    by (auto simp: True users_get_own users_set_own map_of_set_prop map_of_updated_user)
qed

text \<open>
  In every state the server can reach, each of the three seeded identifiers still
  holds a record, and the \<^verbatim>\<open>id\<close> of that record is the identifier.
\<close>

lemma reachable_seeded:
  assumes "reachable users" and "k \<in> {''1'', ''2'', ''3''}"
  shows "\<exists>r. map_of (own users) k = Some r \<and> map_of r ''id'' = Some (JStr k)"
  using assms
proof (induction rule: reachable.induct)
  case reachable_start
  then show ?case
    by (auto simp: users0_def user1_def user2_def user3_def)
next
  case (reachable_request users q)
  then obtain r where r: "map_of (own users) k = Some r" "map_of r ''id'' = Some (JStr k)"
    by blast
  show ?case
  proof (cases q)
    case (GET userId)
    with r show ?thesis by (simp add: get_user_state)
  next
    case (PUT userId req_body)
    with put_user_keeps_seeded_id [OF r] show ?thesis by simp
  qed
qed

text \<open>
  C8. The identifiers of the record mapping are to stay the three seeded ones under
  every fetch and update. An update of the inherited name \<^verbatim>\<open>constructor\<close> with a
  valid payload passes the lookup and assigns \<^verbatim>\<open>users['constructor']\<close>, which
  creates a fourth record.
\<close>

theorem update_creates_record:
  "map fst (own users0) = [''1'', ''2'', ''3'']
   \<and> map fst (own (fst (put_user users0 ''constructor''
         (JObj [(''email'', JStr ''jane.roe@example.org''), (''firstName'', JStr ''Jane''),
                (''lastName'', JStr ''Roe'')])))) = [''1'', ''2'', ''3'', ''constructor'']
   \<and> get_user (fst (put_user users0 ''constructor''
         (JObj [(''email'', JStr ''jane.roe@example.org''), (''firstName'', JStr ''Jane''),
                (''lastName'', JStr ''Roe'')]))) ''constructor'' =
       (fst (put_user users0 ''constructor''
         (JObj [(''email'', JStr ''jane.roe@example.org''), (''firstName'', JStr ''Jane''),
                (''lastName'', JStr ''Roe'')])),
        \<lparr> status = 200,
          body = Data (JObj [(''email'', JStr ''jane.roe@example.org''), (''firstName'', JStr ''Jane''),
                (''lastName'', JStr ''Roe''), (''phoneNumber'', JNull), (''bio'', JNull)]) \<rparr>)"
  by (simp add: users0_def put_user_def get_user_def users_get_def users_set_def reaches_proto_setter_def
      object_prototype_get_def object_prototype_functions_def Let_def body_prop_def get_prop_def
      falsy_def or_null_def updated_user_def test_def json_def
      emailRegex_def one_or_more_def literal_def not_space_at_def white_space_def)

text \<open>
  No update removes a record, and one whose identifier is already in the mapping adds
  none.
\<close>

lemma keys_users_set: "set (map fst (own users)) \<subseteq> set (map fst (own (users_set users userId r)))"
  by (auto simp: users_set_def reaches_proto_setter_def keys_set_prop)

lemma put_user_keeps_keys:
  "set (map fst (own users)) \<subseteq> set (map fst (own (fst (put_user users userId req_body))))"
  using keys_users_set [of users userId]
  by (simp add: put_user_def Let_def split: option.split)

lemma put_user_known_same_keys:
  assumes "map_of (own users) userId = Some r"
  shows "set (map fst (own (fst (put_user users userId req_body)))) = set (map fst (own users))"
proof -
  have "userId \<in> fst ` set (own users)"
    using assms by (force dest: map_of_SomeD)
  then have "fst ` set (own (users_set users userId r')) = fst ` set (own users)" for r'
    using assms by (auto simp: users_set_own keys_set_prop)
  then show ?thesis
    by (simp add: put_user_def Let_def split: option.split)
qed

text \<open>
  The identifier \<^verbatim>\<open>__proto__\<close> is inherited too: a valid update of it creates no
  record but replaces the prototype of \<^verbatim>\<open>users\<close>, after which the names of the
  five fields are found by the lookup.
\<close>

lemma update_proto_identifier:
  "fst (put_user users0 ''__proto__''
      (JObj [(''email'', JStr ''jane.roe@example.org''), (''firstName'', JStr ''Jane''),
             (''lastName'', JStr ''Roe'')])) =
     users0\<lparr> proto := Some [(''email'', JStr ''jane.roe@example.org''), (''firstName'', JStr ''Jane''),
             (''lastName'', JStr ''Roe''), (''phoneNumber'', JNull), (''bio'', JNull)] \<rparr>
   \<and> get_user (users0\<lparr> proto := Some [(''email'', JStr ''jane.roe@example.org''),
             (''firstName'', JStr ''Jane''), (''lastName'', JStr ''Roe''), (''phoneNumber'', JNull),
             (''bio'', JNull)] \<rparr>) ''firstName'' =
       (users0\<lparr> proto := Some [(''email'', JStr ''jane.roe@example.org''),
             (''firstName'', JStr ''Jane''), (''lastName'', JStr ''Roe''), (''phoneNumber'', JNull),
             (''bio'', JNull)] \<rparr>,
        \<lparr> status = 200, body = Data (JStr ''Jane'') \<rparr>)"
  by (simp add: users0_def put_user_def get_user_def users_get_def users_set_def reaches_proto_setter_def
      object_prototype_get_def object_prototype_functions_def Let_def body_prop_def get_prop_def
      falsy_def or_null_def updated_user_def test_def json_def
      emailRegex_def one_or_more_def literal_def not_space_at_def white_space_def)

text \<open>
  C9. Two updates of the same identifier are in flight together and both succeed. In
  whichever order their handlers resume, the record that a fetch then returns is what
  the lookup gave before the two, merged with one of the two bodies: all five fields
  come from the same body.
\<close>

theorem concurrent_updates_no_hybrid:
  assumes order: "sched = [PUT userId b1, PUT userId b2] \<or> sched = [PUT userId b2, PUT userId b1]"
    and ran: "run users sched = (users', resps)"
    and ok: "list_all (\<lambda>resp. status resp = 200) resps"
  shows "get_user users' userId =
           (users', \<lparr> status = 200, body = Data (JObj (merged (users_get users userId) b1)) \<rparr>)
       \<or> get_user users' userId =
           (users', \<lparr> status = 200, body = Data (JObj (merged (users_get users userId) b2)) \<rparr>)"
  using order
proof
  assume "sched = [PUT userId b1, PUT userId b2]"
  with ran have "run users [PUT userId b1, PUT userId b2] = (users', resps)" by simp
  from run_two_updates_any [OF this ok] show ?thesis
    by (simp add: get_user_def json_def)
next
  assume "sched = [PUT userId b2, PUT userId b1]"
  with ran have "run users [PUT userId b2, PUT userId b1] = (users', resps)" by simp
  from run_two_updates_any [OF this ok] show ?thesis
    by (simp add: get_user_def json_def)
qed

theorem concurrent_updates_no_hybrid_witness:
  "map_of (own users0) ''2'' = Some user2
   \<and> list_all (\<lambda>resp. status resp = 200)
        (snd (run users0
          [PUT ''2'' (JObj [(''email'', JStr ''jane.roe@example.org''), (''firstName'', JStr ''Jane''),
                            (''lastName'', JStr ''Roe''), (''bio'', JStr ''Designer'')]),
           PUT ''2'' (JObj [(''email'', JStr ''j@example.org''), (''firstName'', JStr ''J''),
                            (''lastName'', JStr ''Smith''), (''phoneNumber'', JStr ''555'')])]))
   \<and> body (snd (get_user (fst (run users0
          [PUT ''2'' (JObj [(''email'', JStr ''jane.roe@example.org''), (''firstName'', JStr ''Jane''),
                            (''lastName'', JStr ''Roe''), (''bio'', JStr ''Designer'')]),
           PUT ''2'' (JObj [(''email'', JStr ''j@example.org''), (''firstName'', JStr ''J''),
                            (''lastName'', JStr ''Smith''), (''phoneNumber'', JStr ''555'')])])) ''2'')) =
       Data (JObj [(''id'', JStr ''2''), (''email'', JStr ''j@example.org''), (''firstName'', JStr ''J''),
                   (''lastName'', JStr ''Smith''), (''phoneNumber'', JStr ''555''), (''bio'', JNull)])"
proof -
  let ?b1 = "JObj [(''email'', JStr ''jane.roe@example.org''), (''firstName'', JStr ''Jane''),
                   (''lastName'', JStr ''Roe''), (''bio'', JStr ''Designer'')]"
  let ?b2 = "JObj [(''email'', JStr ''j@example.org''), (''firstName'', JStr ''J''),
                   (''lastName'', JStr ''Smith''), (''phoneNumber'', JStr ''555'')]"
  let ?run = "run users0 [PUT ''2'' ?b1, PUT ''2'' ?b2]"
  let ?u1 = "users0\<lparr> own := set_prop ''2'' (merged (Data (JObj user2)) ?b1) (own users0) \<rparr>"
  let ?u2 = "?u1\<lparr> own := set_prop ''2'' (merged (Data (JObj (merged (Data (JObj user2)) ?b1))) ?b2) (own ?u1) \<rparr>"
  have h: "map_of (own users0) ''2'' = Some user2"
    by (simp add: users0_def)
  have m2: "matches emailRegex ''j@example.org''"
    by (simp add: emailRegex_def one_or_more_def literal_def not_space_at_def white_space_def)
  have first: "put_user users0 ''2'' ?b1 = (?u1, json (Data (JObj (merged (Data (JObj user2)) ?b1))))"
    using put_user_accepts [OF h, of ?b1 "''jane.roe@example.org''"] jane_roe
    by (simp add: body_prop_def get_prop_def)
  have h1: "map_of (own ?u1) ''2'' = Some (merged (Data (JObj user2)) ?b1)"
    by (simp add: map_of_set_prop)
  have second: "put_user ?u1 ''2'' ?b2 = (?u2, json (Data (JObj (merged (Data (JObj (merged (Data (JObj user2)) ?b1))) ?b2))))"
    using put_user_accepts [OF h1, of ?b2 "''j@example.org''"] m2
    by (simp add: body_prop_def get_prop_def)
  have ran: "?run = (?u2, [json (Data (JObj (merged (Data (JObj user2)) ?b1))),
      json (Data (JObj (merged (Data (JObj (merged (Data (JObj user2)) ?b1))) ?b2)))])"
    by (simp add: first second)
  have ok: "list_all (\<lambda>resp. status resp = 200) (snd ?run)"
    unfolding ran by (simp add: json_def)
  have e: "?run = (fst ?run, snd ?run)"
    by simp
  have m: "merged (Data (JObj user2)) ?b2 = [(''id'', JStr ''2''), (''email'', JStr ''j@example.org''),
      (''firstName'', JStr ''J''), (''lastName'', JStr ''Smith''), (''phoneNumber'', JStr ''555''),
      (''bio'', JNull)]"
    by (simp add: merged_def updated_user_def user2_def body_prop_def get_prop_def or_null_def)
  have got: "body (snd (get_user (fst ?run) ''2'')) = Data (JObj (merged (Data (JObj user2)) ?b2))"
    unfolding ran by (simp add: get_user_def users_get_def map_of_set_prop json_def merged_twice)
  from concurrent_updates_no_hybrid [OF _ e ok, of "''2''" ?b1 ?b2] h ok got show ?thesis
    by (simp add: m users_get_own)
qed

text \<open>
  C10. After a successful update of a known identifier, an optional field is stored
  as \<^verbatim>\<open>null\<close> exactly when the submitted value is falsy: absent (read as
  \<^verbatim>\<open>undefined\<close>), \<^verbatim>\<open>null\<close>, the empty string, \<^verbatim>\<open>false\<close> or zero; any other
  value is stored as submitted. For a submitted string that is exactly when it is
  empty.
\<close>

theorem optional_field_null_iff_falsy:
  assumes known: "map_of (own users) userId = Some r"
    and upd: "put_user users userId (JObj payload) = (users', resp)"
    and ok: "status resp = 200"
    and opt: "k = ''phoneNumber'' \<or> k = ''bio''"
  shows "\<exists>r'. map_of (own users') userId = Some r'
     \<and> map_of r' k = Some (if falsy (get_prop payload k) then JNull else get_prop payload k)
     \<and> ((map_of r' k = Some JNull) =
          (get_prop payload k \<in> {JUndefined, JNull, JStr '''', JBool False, JNum 0}))
     \<and> (\<forall>s. map_of payload k = Some (JStr s) \<longrightarrow> ((map_of r' k = Some JNull) = (s = '''')))"
proof -
  have f: "\<And>k. body_prop (JObj payload) k = get_prop payload k"
    by (simp add: body_prop_def)
  from put_user_200_stored [OF known upd ok]
  have stored: "map_of (own users') userId = Some (merged (Data (JObj r)) (JObj payload))"
    by (simp add: map_of_set_prop)
  have val: "map_of (merged (Data (JObj r)) (JObj payload)) k = Some (or_null (get_prop payload k))"
    using opt by (auto simp: merged_def map_of_updated_user f)
  have iff: "(map_of (merged (Data (JObj r)) (JObj payload)) k = Some JNull) =
      (get_prop payload k \<in> {JUndefined, JNull, JStr '''', JBool False, JNum 0})"
    unfolding val by (simp only: option.inject or_null_JNull_iff)
  have str: "\<forall>s. map_of payload k = Some (JStr s) \<longrightarrow>
      ((map_of (merged (Data (JObj r)) (JObj payload)) k = Some JNull) = (s = ''''))"
  proof (intro allI impI)
    fix s assume "map_of payload k = Some (JStr s)"
    then have "get_prop payload k = JStr s" by (simp add: get_prop_def)
    then show "(map_of (merged (Data (JObj r)) (JObj payload)) k = Some JNull) = (s = '''')"
      unfolding val by (simp add: or_null_def)
  qed
  from stored val iff str show ?thesis
    unfolding or_null_falsy by blast
qed

theorem optional_field_null_iff_falsy_witness:
  "map_of (own users0) ''1'' = Some user1
   \<and> status (snd (put_user users0 ''1''
         (JObj [(''email'', JStr ''jane.roe@example.org''), (''firstName'', JStr ''Jane''),
                (''lastName'', JStr ''Roe''), (''phoneNumber'', JStr '''')]))) = 200
   \<and> map_of user1 ''phoneNumber'' = Some (JStr ''+1-555-123-4567'')
   \<and> (\<exists>r'. map_of (own (fst (put_user users0 ''1''
         (JObj [(''email'', JStr ''jane.roe@example.org''), (''firstName'', JStr ''Jane''),
                (''lastName'', JStr ''Roe''), (''phoneNumber'', JStr '''')])))) ''1'' = Some r'
        \<and> map_of r' ''phoneNumber'' = Some JNull)"
proof -
  let ?p = "[(''email'', JStr ''jane.roe@example.org''), (''firstName'', JStr ''Jane''),
                (''lastName'', JStr ''Roe''), (''phoneNumber'', JStr '''')]"
  have h: "map_of (own users0) ''1'' = Some user1"
    by (simp add: users0_def)
  have e: "put_user users0 ''1'' (JObj ?p) =
      (fst (put_user users0 ''1'' (JObj ?p)), snd (put_user users0 ''1'' (JObj ?p)))"
    by simp
  have ok: "status (snd (put_user users0 ''1'' (JObj ?p))) = 200"
    using put_user_accepts [OF h, of "JObj ?p" "''jane.roe@example.org''"] jane_roe
    by (simp add: body_prop_def get_prop_def json_def)
  have f: "falsy (get_prop ?p ''phoneNumber'')"
    by (simp add: get_prop_def falsy_def)
  from optional_field_null_iff_falsy [OF h e ok, of "''phoneNumber''"] f h ok show ?thesis
    by (auto simp: user1_def)
qed

end
